theory Spec2Isabelle
  imports Main "HOL-Library.Word"
begin

unbundle bit_operations_syntax

section \<open>kprobe-coverage: the data model of src/kernel/kmod.c\<close>

text \<open>
  The kernel module keeps every coverage entry in a block of \<open>vzalloc\<close> memory and
  links it, through its single list node \<open>lh\<close>, into one of three lists of the one
  \<open>struct kprobe_coverage\<close>. The model keeps the heap of entries explicit (pointers
  are addresses, \<open>NULL\<close> is 0, a block is live or freed), the three lists as lists of
  entry pointers in list order (first element = \<open>head->next\<close>), and the calls into the
  kernel's kprobe, workqueue and waitqueue interfaces as a trace.  A pointer use that the
  kernel would not survive (a NULL or dangling dereference, a double free, unlinking a
  node that is on no list) is a value of type \<open>fault\<close>.

  \<open>unsigned long\<close> is 64 bits wide (the readout prints it with \<open>%016lx\<close>), \<open>u32\<close> is 32
  bits wide.
\<close>

type_synonym ptr = nat
type_synonym u32 = "32 word"
type_synonym ulong = "64 word"

abbreviation (input) NULL :: ptr where
  "NULL \<equiv> 0"

text \<open>\<open>struct kprobe_coverage_entry\<close>: \<open>kp.addr\<close>, \<open>module_checksum\<close>, \<open>base_addr\<close>. The
  fields \<open>kp.pre_handler\<close> and \<open>work\<close> are set once by \<open>kpc_new_entry\<close> to
  \<open>kpc_pre_handler\<close> and \<open>kpc_probe_work\<close> and never change; \<open>lh\<close> is the membership in
  the lists below.\<close>

record kprobe_coverage_entry =
  kp_addr :: ulong
  module_checksum :: u32
  base_addr :: ulong

datatype cell = Live kprobe_coverage_entry | Freed

datatype fault = NullDeref | BadAccess | DoubleFree | ListPoison

text \<open>Calls that leave the module, in the order they are made.\<close>

datatype call =
    RegisterKprobe ptr int
  | EnableKprobe ptr int
  | UnregisterKprobe ptr
  | ScheduleWork ptr
  | WakeUp

text \<open>\<open>struct kprobe_coverage\<close> (the three lists) together with the memory the entries
  live in and the state of the kernel services the module talks to: which kprobes are
  registered, which work items are queued, which work items a worker has taken off the
  queue without having finished their function yet, how many blocks \<open>vzalloc\<close> has
  handed out.\<close>

record kprobe_coverage =
  deferred_list :: "ptr list"
  pending_list :: "ptr list"
  hit_list :: "ptr list"
  mem :: "ptr \<Rightarrow> cell option"
  nalloc :: nat
  registered :: "ptr set"
  workq :: "ptr list"
  running :: "ptr list"
  trace :: "call list"

text \<open>\<open>struct module\<close>, as far as the module reads it, and what the module cannot
  decide itself: the module table (\<open>find_module\<close>), the results of \<open>register_kprobe\<close>
  and \<open>enable_kprobe\<close> for an entry, whether the n-th \<open>vzalloc\<close> of an entry fails, the
  kernel's \<open>crc32(0, name, strlen(name))\<close>, whether a signal interrupts a sleeping
  reader, whether the user buffer of a read or write is bad, and whether the \<open>vzalloc\<close> of
  the control write's line buffer fails.\<close>

record kmodule =
  mod_name :: string
  module_core :: ulong

record env =
  find_module :: "string \<Rightarrow> kmodule option"
  register_rv :: "ptr \<Rightarrow> int"
  enable_rv :: "ptr \<Rightarrow> int"
  oom :: "nat \<Rightarrow> bool"
  crc32 :: "string \<Rightarrow> u32"
  signal :: bool
  user_fault :: bool
  buf_oom :: bool

definition EINVAL :: int where "EINVAL = 22"
definition ENOMEM :: int where "ENOMEM = 12"
definition EFAULT :: int where "EFAULT = 14"

subsection \<open>Memory and the kernel's list primitives\<close>

definition bnd :: "fault + 'a \<Rightarrow> ('a \<Rightarrow> fault + 'b) \<Rightarrow> fault + 'b" where
  "bnd m f = (case m of Inl e \<Rightarrow> Inl e | Inr x \<Rightarrow> f x)"

definition zero_entry :: kprobe_coverage_entry where
  "zero_entry = \<lparr>kp_addr = 0, module_checksum = 0, base_addr = 0\<rparr>"

text \<open>\<open>vzalloc(sizeof(*out))\<close>: NULL on failure, otherwise a zeroed block at an address
  that was never handed out before.\<close>

definition vzalloc :: "env \<Rightarrow> kprobe_coverage \<Rightarrow> ptr \<times> kprobe_coverage" where
  "vzalloc e s =
     (if oom e (nalloc s) then (NULL, s\<lparr>nalloc := Suc (nalloc s)\<rparr>)
      else (Suc (nalloc s),
            s\<lparr>nalloc := Suc (nalloc s), mem := (mem s)(Suc (nalloc s) \<mapsto> Live zero_entry)\<rparr>))"

text \<open>Reading or writing a field through an entry pointer.\<close>

definition deref :: "kprobe_coverage \<Rightarrow> ptr \<Rightarrow> fault + kprobe_coverage_entry" where
  "deref s p =
     (if p = NULL then Inl NullDeref
      else case mem s p of Some (Live x) \<Rightarrow> Inr x | Some Freed \<Rightarrow> Inl BadAccess | None \<Rightarrow> Inl BadAccess)"

definition store :: "ptr \<Rightarrow> kprobe_coverage_entry \<Rightarrow> kprobe_coverage \<Rightarrow> kprobe_coverage" where
  "store p x s = s\<lparr>mem := (mem s)(p \<mapsto> Live x)\<rparr>"

text \<open>\<open>vfree\<close>: a no-op on NULL.\<close>

definition vfree :: "ptr \<Rightarrow> kprobe_coverage \<Rightarrow> fault + kprobe_coverage" where
  "vfree p s =
     (if p = NULL then Inr s
      else case mem s p of
             Some (Live x) \<Rightarrow> Inr (s\<lparr>mem := (mem s)(p \<mapsto> Freed)\<rparr>)
           | Some Freed \<Rightarrow> Inl DoubleFree
           | None \<Rightarrow> Inl BadAccess)"

datatype list_head = Deferred | Pending | Hit

text \<open>The list primitives write the link fields of the node and of the nodes next to
  it. The list heads are part of \<open>struct kprobe_coverage\<close> and always there; a
  neighbour that is an entry has to be a live block.\<close>

definition entries :: "list_head \<Rightarrow> kprobe_coverage \<Rightarrow> ptr list" where
  "entries h s =
     (case h of Deferred \<Rightarrow> deferred_list s | Pending \<Rightarrow> pending_list s | Hit \<Rightarrow> hit_list s)"

fun touch :: "kprobe_coverage \<Rightarrow> ptr list \<Rightarrow> fault + unit" where
  "touch s [] = Inr ()"
| "touch s (q # qs) = bnd (deref s q) (\<lambda>_. touch s qs)"

text \<open>\<open>list_add(&entry->lh, head)\<close> links the node right after the head:
  \<open>next->prev = new; new->next = next; new->prev = head; head->next = new\<close>, where \<open>next\<close>
  is the first entry of the list (or the head). \<open>list_add_tail\<close> links it right before
  the head: \<open>head->prev = new; new->next = head; new->prev = prev; prev->next = new\<close>,
  where \<open>prev\<close> is the last entry of the list (or the head). The module only ever adds a
  node that is on no list (fresh from \<open>vzalloc\<close>, or just unlinked).\<close>

definition list_add :: "ptr \<Rightarrow> list_head \<Rightarrow> kprobe_coverage \<Rightarrow> fault + kprobe_coverage" where
  "list_add p h s =
     bnd (touch s (take 1 (entries h s))) (\<lambda>_.
     bnd (deref s p) (\<lambda>_. Inr (case h of
         Deferred \<Rightarrow> s\<lparr>deferred_list := p # deferred_list s\<rparr>
       | Pending \<Rightarrow> s\<lparr>pending_list := p # pending_list s\<rparr>
       | Hit \<Rightarrow> s\<lparr>hit_list := p # hit_list s\<rparr>)))"

definition list_add_tail :: "ptr \<Rightarrow> list_head \<Rightarrow> kprobe_coverage \<Rightarrow> fault + kprobe_coverage" where
  "list_add_tail p h s =
     bnd (deref s p) (\<lambda>_.
     bnd (touch s (take 1 (rev (entries h s)))) (\<lambda>_. Inr (case h of
         Deferred \<Rightarrow> s\<lparr>deferred_list := deferred_list s @ [p]\<rparr>
       | Pending \<Rightarrow> s\<lparr>pending_list := pending_list s @ [p]\<rparr>
       | Hit \<Rightarrow> s\<lparr>hit_list := hit_list s @ [p]\<rparr>)))"

text \<open>\<open>list_del(&entry->lh)\<close> unlinks the node from whichever list it is on: it reads
  the node's \<open>next\<close> and \<open>prev\<close> and writes \<open>next->prev = prev; prev->next = next\<close>. On a
  node that is on no list \<open>next\<close> and \<open>prev\<close> are NULL (a zeroed block) or the list poison
  (after an earlier \<open>list_del\<close>). \<open>neighbours p l\<close> are the entries the unlinking of \<open>p\<close>
  from \<open>l\<close> writes: the entry after \<open>p\<close>, then the entry before it.\<close>

definition on_list :: "kprobe_coverage \<Rightarrow> ptr \<Rightarrow> bool" where
  "on_list s p = (p \<in> set (deferred_list s) \<or> p \<in> set (pending_list s) \<or> p \<in> set (hit_list s))"

fun neighbours :: "ptr \<Rightarrow> ptr list \<Rightarrow> ptr list" where
  "neighbours p [] = []"
| "neighbours p [q] = []"
| "neighbours p (q # r # l) =
     (if q = p then [r]
      else if r = p then take 1 l @ [q]
      else neighbours p (r # l))"

definition list_del :: "ptr \<Rightarrow> kprobe_coverage \<Rightarrow> fault + kprobe_coverage" where
  "list_del p s =
     bnd (deref s p) (\<lambda>_.
       if on_list s p
       then bnd (touch s (neighbours p (deferred_list s) @ neighbours p (pending_list s)
                          @ neighbours p (hit_list s))) (\<lambda>_.
              Inr (s\<lparr>deferred_list := remove1 p (deferred_list s),
                     pending_list := remove1 p (pending_list s),
                     hit_list := remove1 p (hit_list s)\<rparr>))
       else Inl ListPoison)"

subsection \<open>The kprobe, workqueue and waitqueue interfaces\<close>

text \<open>\<open>register_kprobe(&entry->kp)\<close>: the result comes from the environment; a probe
  registered with result 0 can fire until it is unregistered.\<close>

definition register_kprobe :: "env \<Rightarrow> ptr \<Rightarrow> kprobe_coverage \<Rightarrow> int \<times> kprobe_coverage" where
  "register_kprobe e p s =
     (let rv = register_rv e p in
      (rv, s\<lparr>registered := (if rv < 0 then registered s else insert p (registered s)),
             trace := trace s @ [RegisterKprobe p rv]\<rparr>))"

definition enable_kprobe :: "env \<Rightarrow> ptr \<Rightarrow> kprobe_coverage \<Rightarrow> int \<times> kprobe_coverage" where
  "enable_kprobe e p s =
     (let rv = enable_rv e p in (rv, s\<lparr>trace := trace s @ [EnableKprobe p rv]\<rparr>))"

definition unregister_kprobe :: "ptr \<Rightarrow> kprobe_coverage \<Rightarrow> kprobe_coverage" where
  "unregister_kprobe p s =
     s\<lparr>registered := registered s - {p}, trace := trace s @ [UnregisterKprobe p]\<rparr>"

text \<open>\<open>schedule_work(&entry->work)\<close> queues the entry's work item unless it is queued
  already. An item that a worker has taken off the queue is not queued any more.\<close>

definition schedule_work :: "ptr \<Rightarrow> kprobe_coverage \<Rightarrow> kprobe_coverage" where
  "schedule_work p s =
     s\<lparr>workq := (if p \<in> set (workq s) then workq s else workq s @ [p]),
       trace := trace s @ [ScheduleWork p]\<rparr>"

definition wake_up :: "kprobe_coverage \<Rightarrow> kprobe_coverage" where
  "wake_up s = s\<lparr>trace := trace s @ [WakeUp]\<rparr>"

section \<open>The functions of kmod.c\<close>

definition get_name_checksum :: "env \<Rightarrow> string option \<Rightarrow> u32" where
  "get_name_checksum e name = (case name of None \<Rightarrow> 0 | Some n \<Rightarrow> crc32 e n)"

definition kpc_pre_handler :: "ptr \<Rightarrow> kprobe_coverage \<Rightarrow> kprobe_coverage" where
  "kpc_pre_handler entry s = schedule_work entry s"

definition kpc_probe_work :: "ptr \<Rightarrow> kprobe_coverage \<Rightarrow> fault + kprobe_coverage" where
  "kpc_probe_work entry s =
     bnd (list_del entry (unregister_kprobe entry s)) (\<lambda>s1.
     bnd (list_add_tail entry Hit s1) (\<lambda>s2.
     Inr (wake_up s2)))"

definition kpc_free_entry :: "ptr \<Rightarrow> kprobe_coverage \<Rightarrow> fault + kprobe_coverage" where
  "kpc_free_entry entry s = vfree entry s"

definition kpc_new_entry ::
  "env \<Rightarrow> string option \<Rightarrow> kmodule option \<Rightarrow> ulong \<Rightarrow> kprobe_coverage \<Rightarrow> ptr \<times> kprobe_coverage" where
  "kpc_new_entry e module_name module where' s =
     (case vzalloc e s of (out, s1) \<Rightarrow>
        if out = NULL then (NULL, s1)
        else
          let base = (case module of None \<Rightarrow> 0 | Some m \<Rightarrow> module_core m) in
          (out, store out \<lparr>kp_addr = base + where',
                           module_checksum = get_name_checksum e module_name,
                           base_addr = base\<rparr> s1))"

text \<open>\<open>kpc_enable_probe\<close>: the entry is linked into the pending list between the two
  registrar calls; on a failing \<open>enable_kprobe\<close> it is unregistered but not unlinked.
  \<open>&entry->kp\<close> is computed without touching the entry, so \<open>register_kprobe\<close> is called
  even with a NULL entry.\<close>

definition kpc_enable_probe :: "env \<Rightarrow> ptr \<Rightarrow> kprobe_coverage \<Rightarrow> fault + (int \<times> kprobe_coverage)" where
  "kpc_enable_probe e entry s =
     (case register_kprobe e entry s of (err, s1) \<Rightarrow>
        if err < 0 then Inr (- EINVAL, s1)
        else
          bnd (list_add entry Pending s1) (\<lambda>s2.
            case enable_kprobe e entry s2 of (err2, s3) \<Rightarrow>
              if err2 < 0 then Inr (- EINVAL, unregister_kprobe entry s3)
              else Inr (0, s3)))"

definition kpc_defer_probe :: "ptr \<Rightarrow> kprobe_coverage \<Rightarrow> fault + kprobe_coverage" where
  "kpc_defer_probe entry s = list_add entry Deferred s"

definition kpc_add_probe ::
  "env \<Rightarrow> string option \<Rightarrow> ulong \<Rightarrow> kprobe_coverage \<Rightarrow> fault + kprobe_coverage" where
  "kpc_add_probe e module_name where' s =
     (let module = (case module_name of None \<Rightarrow> None | Some n \<Rightarrow> find_module e n) in
      case kpc_new_entry e module_name module where' s of (entry, s1) \<Rightarrow>
        bnd (if module_name \<noteq> None \<and> module = None
             then bnd (kpc_defer_probe entry s1) (\<lambda>s2. Inr (0, s2))
             else kpc_enable_probe e entry s1)
          (\<lambda>(rv, s2). if rv < 0 then kpc_free_entry entry s2 else Inr s2))"

text \<open>\<open>list_for_each_safe\<close> walks the nodes that are on the list when the loop starts;
  the bodies below unlink only the node they are visiting, so the walk is a recursion
  over the list as it was.\<close>

fun kpc_clear_list :: "ptr list \<Rightarrow> bool \<Rightarrow> kprobe_coverage \<Rightarrow> fault + kprobe_coverage" where
  "kpc_clear_list [] do_unregister s = Inr s"
| "kpc_clear_list (entry # rest) do_unregister s =
     bnd (list_del entry (if do_unregister then unregister_kprobe entry s else s)) (\<lambda>s1.
     bnd (kpc_free_entry entry s1) (\<lambda>s2.
     kpc_clear_list rest do_unregister s2))"

definition kpc_clear :: "kprobe_coverage \<Rightarrow> fault + kprobe_coverage" where
  "kpc_clear s =
     bnd (kpc_clear_list (deferred_list s) False s) (\<lambda>s1.
     let s2 = s1\<lparr>deferred_list := []\<rparr> in
     bnd (kpc_clear_list (hit_list s2) True s2) (\<lambda>s3.
     bnd (kpc_clear_list (pending_list s3) True s3) (\<lambda>s4.
     Inr (s4\<lparr>pending_list := [], hit_list := []\<rparr>))))"

text \<open>\<open>kpc_unlink_next\<close> sleeps in \<open>wait_event_interruptible\<close> while the hit list is
  empty. With a hit queued it returns at once; otherwise a signal makes it return NULL,
  and without one the caller stays blocked.\<close>

datatype 'a waited = Blocked | Returned 'a

definition kpc_unlink_next ::
  "env \<Rightarrow> kprobe_coverage \<Rightarrow> fault + (ptr waited \<times> kprobe_coverage)" where
  "kpc_unlink_next e s =
     (case hit_list s of
        [] \<Rightarrow> if signal e then Inr (Returned NULL, s) else Inr (Blocked, s)
      | entry # _ \<Rightarrow> bnd (list_del entry s) (\<lambda>s1. Inr (Returned entry, s1)))"


text \<open>\<open>snprintf(buf, sizeof(buf), "0x%08x:0x%016lx\n", ...)\<close>: a \<open>u32\<close> printed with
  \<open>%08x\<close> has exactly 8 digits and an \<open>unsigned long\<close> printed with \<open>%016lx\<close> exactly
  16, so both fields have a fixed width.\<close>

definition hex_digit :: "nat \<Rightarrow> char" where
  "hex_digit d = ''0123456789abcdef'' ! (d mod 16)"

fun hex_field :: "nat \<Rightarrow> nat \<Rightarrow> string" where
  "hex_field 0 n = []"
| "hex_field (Suc w) n = hex_field w (n div 16) @ [hex_digit n]"

definition show_line :: "u32 \<Rightarrow> ulong \<Rightarrow> string" where
  "show_line checksum addr =
     ''0x'' @ hex_field 8 (unat checksum) @ '':0x'' @ hex_field 16 (unat addr) @ [CHR 0x0A]"

text \<open>\<open>kpc_show_read\<close> returns the \<open>ssize_t\<close> result and what \<open>copy_to_user\<close> stored in
  the user buffer.\<close>

definition kpc_show_read ::
  "env \<Rightarrow> kprobe_coverage \<Rightarrow> fault + ((int \<times> string option) waited \<times> kprobe_coverage)" where
  "kpc_show_read e s =
     bnd (kpc_unlink_next e s) (\<lambda>(r, s1).
       case r of
         Blocked \<Rightarrow> Inr (Blocked, s1)
       | Returned entry \<Rightarrow>
           if entry = NULL then Inr (Returned (0, None), s1)
           else
             bnd (deref s1 entry) (\<lambda>x.
               let addr = kp_addr x - base_addr x;
                   buf = show_line (module_checksum x) addr;
                   n = int (length buf)
               in if n \<ge> 64 then Inr (Returned (- EINVAL, None), s1)
                  else
                    bnd (kpc_free_entry entry s1) (\<lambda>s2.
                      Inr (Returned (if user_fault e then (- EFAULT, None) else (n, Some buf)),
                           s2))))"

subsection \<open>The control file\<close>

text \<open>\<open>strsep(&p, "\r\n")\<close> on a non-NULL \<open>p\<close>: the token up to the first CR or LF, and the
  new \<open>p\<close> (the text after that separator, or NULL when there is none).\<close>

definition is_sep :: "char \<Rightarrow> bool" where
  "is_sep c = (c = CHR 0x0D \<or> c = CHR 0x0A)"

fun strsep :: "string \<Rightarrow> string \<times> string option" where
  "strsep [] = ([], None)"
| "strsep (c # cs) =
     (if is_sep c then ([], Some cs)
      else case strsep cs of (tok, p) \<Rightarrow> (c # tok, p))"

text \<open>\<open>simple_strtoul(addr_p, &endp, 16)\<close> of the kernel library: an optional \<open>0x\<close> or
  \<open>0X\<close>, then hexadecimal digits of either case; the value wraps at the width of
  \<open>unsigned long\<close>. The result is the value and \<open>endp - addr_p\<close>.\<close>

definition hex_val :: "char \<Rightarrow> nat option" where
  "hex_val c =
     (let n = (of_char c :: nat) in
      if 48 \<le> n \<and> n \<le> 57 then Some (n - 48)
      else if 97 \<le> n \<and> n \<le> 102 then Some (n - 87)
      else if 65 \<le> n \<and> n \<le> 70 then Some (n - 55)
      else None)"

fun parse_hex :: "string \<Rightarrow> ulong \<Rightarrow> nat \<Rightarrow> ulong \<times> nat" where
  "parse_hex [] result k = (result, k)"
| "parse_hex (c # cs) result k =
     (case hex_val c of
        None \<Rightarrow> (result, k)
      | Some v \<Rightarrow> parse_hex cs (result * 16 + of_nat v) (Suc k))"

definition radix_prefix :: "string \<Rightarrow> nat" where
  "radix_prefix cp =
     (case cp of
        c0 # c1 # rest \<Rightarrow> if c0 = CHR ''0'' \<and> (c1 = CHR ''x'' \<or> c1 = CHR ''X'') then 2 else 0
      | _ \<Rightarrow> 0)"

definition simple_strtoul :: "string \<Rightarrow> ulong \<times> nat" where
  "simple_strtoul cp = parse_hex (drop (radix_prefix cp) cp) 0 (radix_prefix cp)"

text \<open>\<open>strstr(line, ":")\<close> and the split of the line at the first colon.\<close>

definition split_colon :: "string \<Rightarrow> string option \<times> string" where
  "split_colon line =
     (if CHR '':'' \<in> set line
      then (Some (takeWhile (\<lambda>c. c \<noteq> CHR '':'') line), tl (dropWhile (\<lambda>c. c \<noteq> CHR '':'') line))
      else (None, line))"

lemma strsep_shorter: "strsep buf = (line, Some p) \<Longrightarrow> length p < length buf"
  by (induction buf arbitrary: line) (auto split: if_splits prod.splits)

text \<open>The \<open>while\<close> loop of \<open>kpc_control_write\<close>; \<open>p\<close> is the loop's \<open>p\<close> (\<open>None\<close> for
  NULL), \<open>out\<close> the bytes accounted for so far.\<close>

function kpc_control_loop ::
  "env \<Rightarrow> string option \<Rightarrow> int \<Rightarrow> kprobe_coverage \<Rightarrow> fault + (int \<times> kprobe_coverage)" where
  "kpc_control_loop e None out s = Inr (out, s)"
| "kpc_control_loop e (Some buf) out s =
     (case strsep buf of (line, p) \<Rightarrow>
        if line = [] \<or> p = None then Inr (out, s)
        else
          let out' = out + (int (length line) + 1) in
          if line = ''clear'' then
            (case kpc_clear s of Inl f \<Rightarrow> Inl f | Inr s1 \<Rightarrow> Inr (out', s1))
          else
            (case split_colon line of (module, addr_p) \<Rightarrow>
              (case simple_strtoul addr_p of (addr, endp) \<Rightarrow>
                if endp = 0 \<or> endp \<noteq> length addr_p then kpc_control_loop e p out' s
                else
                  (case kpc_add_probe e module addr s of
                     Inl f \<Rightarrow> Inl f
                   | Inr s1 \<Rightarrow> kpc_control_loop e p out' s1))))"
  by pat_completeness auto
termination
  by (relation "measure (\<lambda>(e, p, out, s). case p of None \<Rightarrow> 0 | Some b \<Rightarrow> Suc (length b))")
     (auto dest: strsep_shorter [OF sym])

text \<open>\<open>kpc_control_write\<close>: the buffer is the user's bytes followed by a NUL, read as a
  C string. The result is the \<open>ssize_t\<close> return value and the new file position.\<close>

definition c_string :: "string \<Rightarrow> string" where
  "c_string bytes = takeWhile (\<lambda>c. c \<noteq> CHR 0x00) bytes"

definition kpc_control_write ::
  "env \<Rightarrow> string \<Rightarrow> int \<Rightarrow> kprobe_coverage \<Rightarrow> fault + (int \<times> int \<times> kprobe_coverage)" where
  "kpc_control_write e user_buf off s =
     (if buf_oom e then Inr (- ENOMEM, off, s)
      else if user_fault e then Inr (- EFAULT, off, s)
      else bnd (kpc_control_loop e (Some (c_string user_buf)) 0 s)
             (\<lambda>(out, s1). Inr (out, off + out, s1)))"

subsection \<open>Module events\<close>

text \<open>\<open>kpc_handle_coming_module\<close> walks the deferred list. \<open>kp.addr\<close> is a pointer to
  \<open>kprobe_opcode_t\<close>, a type of the architecture; \<open>entry->kp.addr += entry->base_addr\<close> is
  taken to add bytes, as it does where an opcode is one byte wide (x86).\<close>

fun kpc_handle_coming_loop ::
  "env \<Rightarrow> kmodule \<Rightarrow> ptr list \<Rightarrow> kprobe_coverage \<Rightarrow> fault + kprobe_coverage" where
  "kpc_handle_coming_loop e m [] s = Inr s"
| "kpc_handle_coming_loop e m (entry # rest) s =
     bnd (deref s entry) (\<lambda>x.
       if get_name_checksum e (Some (mod_name m)) \<noteq> module_checksum x
       then kpc_handle_coming_loop e m rest s
       else
         bnd (list_del entry s) (\<lambda>s1.
         let s2 = store entry (x\<lparr>base_addr := module_core m,
                                   kp_addr := kp_addr x + module_core m\<rparr>) s1 in
         bnd (kpc_enable_probe e entry s2) (\<lambda>(rv, s3).
           if rv < 0
           then bnd (kpc_free_entry entry s3) (\<lambda>s4. kpc_handle_coming_loop e m rest s4)
           else kpc_handle_coming_loop e m rest s3)))"

definition kpc_handle_coming_module :: "env \<Rightarrow> kmodule \<Rightarrow> kprobe_coverage \<Rightarrow> fault + kprobe_coverage" where
  "kpc_handle_coming_module e m s = kpc_handle_coming_loop e m (deferred_list s) s"

fun kpc_handle_going_loop ::
  "env \<Rightarrow> kmodule \<Rightarrow> ptr list \<Rightarrow> kprobe_coverage \<Rightarrow> fault + kprobe_coverage" where
  "kpc_handle_going_loop e m [] s = Inr s"
| "kpc_handle_going_loop e m (entry # rest) s =
     bnd (deref s entry) (\<lambda>x.
       if get_name_checksum e (Some (mod_name m)) \<noteq> module_checksum x
       then kpc_handle_going_loop e m rest s
       else
         bnd (list_del entry (unregister_kprobe entry s)) (\<lambda>s1.
         kpc_handle_going_loop e m rest s1))"

definition kpc_handle_going_module :: "env \<Rightarrow> kmodule \<Rightarrow> kprobe_coverage \<Rightarrow> fault + kprobe_coverage" where
  "kpc_handle_going_module e m s = kpc_handle_going_loop e m (pending_list s) s"

datatype module_state =
  MODULE_STATE_LIVE | MODULE_STATE_COMING | MODULE_STATE_GOING | MODULE_STATE_UNFORMED

definition kpc_module_notifier ::
  "env \<Rightarrow> module_state \<Rightarrow> kmodule \<Rightarrow> kprobe_coverage \<Rightarrow> fault + kprobe_coverage" where
  "kpc_module_notifier e event m s =
     (if event = MODULE_STATE_COMING then kpc_handle_coming_module e m s
      else if event = MODULE_STATE_GOING then kpc_handle_going_module e m s
      else Inr s)"

text \<open>The state \<open>kpc_init\<close> leaves behind when it succeeds: three empty lists, nothing
  allocated, registered, queued or running.\<close>

definition kpc_init :: kprobe_coverage where
  "kpc_init = \<lparr>deferred_list = [], pending_list = [], hit_list = [], mem = Map.empty,
               nalloc = 0, registered = {}, workq = [], running = [], trace = []\<rparr>"


subsection \<open>Concrete environments\<close>

text \<open>An environment for concrete runs: no module is loaded, every kernel call
  succeeds, no signal arrives. The checksum of a name is replaced by its length (the
  theorems below hold for every checksum function).\<close>

definition env0 :: env where
  "env0 = \<lparr>find_module = (\<lambda>_. None), register_rv = (\<lambda>_. 0), enable_rv = (\<lambda>_. 0),
            oom = (\<lambda>_. False), crc32 = (\<lambda>n. of_nat (length n)),
            signal = False, user_fault = False, buf_oom = False\<rparr>"


text \<open>Environments in which one kernel service fails: \<open>enable_kprobe\<close>, the allocation
  of entries (with and without \<open>register_kprobe\<close> accepting the probe), and one in
  which the module \<open>mymod\<close> is loaded at 0x1000.\<close>

definition env_enable_fails :: env where
  "env_enable_fails = env0\<lparr>enable_rv := (\<lambda>_. - 1)\<rparr>"

definition env_oom :: env where
  "env_oom = env0\<lparr>oom := (\<lambda>_. True)\<rparr>"

definition env_oom_reject :: env where
  "env_oom_reject = env0\<lparr>oom := (\<lambda>_. True), register_rv := (\<lambda>_. - 1)\<rparr>"

definition mymod :: kmodule where
  "mymod = \<lparr>mod_name = ''mymod'', module_core = 0x1000\<rparr>"

definition env_loaded :: env where
  "env_loaded = env0\<lparr>find_module := (\<lambda>n. if n = ''mymod'' then Some mymod else None)\<rparr>"

section \<open>Runs of the module\<close>

text \<open>An entry pointer is live when it points to an allocated block that has not been
  freed.\<close>

definition live :: "kprobe_coverage \<Rightarrow> ptr \<Rightarrow> bool" where
  "live s p = (p \<noteq> NULL \<and> (case mem s p of Some (Live x) \<Rightarrow> True | _ \<Rightarrow> False))"


text \<open>The module at run time: a control write, a read of the show file, a module
  notification, a probe firing (the kprobe layer calls \<open>kpc_pre_handler\<close> of a
  registered probe), a worker taking a queued work item off the workqueue, and the
  worker calling the work function \<open>kpc_probe_work\<close> of an item it has taken. Between
  the last two the item is not queued any more, so that \<open>schedule_work\<close> queues it
  again, and its probe is still registered. Each event runs to completion before the
  next.\<close>

datatype event =
    Write env string
  | Read env
  | Notify env module_state kmodule
  | Fire ptr
  | Dequeue ptr
  | Work ptr

definition enabled :: "event \<Rightarrow> kprobe_coverage \<Rightarrow> bool" where
  "enabled ev s =
     (case ev of
        Fire p \<Rightarrow> p \<in> registered s
      | Dequeue p \<Rightarrow> p \<in> set (workq s)
      | Work p \<Rightarrow> p \<in> set (running s)
      | _ \<Rightarrow> True)"

definition step :: "event \<Rightarrow> kprobe_coverage \<Rightarrow> fault + kprobe_coverage" where
  "step ev s =
     (case ev of
        Write e user_buf \<Rightarrow> bnd (kpc_control_write e user_buf 0 s) (\<lambda>(out, off, s'). Inr s')
      | Read e \<Rightarrow> bnd (kpc_show_read e s) (\<lambda>(r, s'). Inr s')
      | Notify e event m \<Rightarrow> kpc_module_notifier e event m s
      | Fire p \<Rightarrow> Inr (kpc_pre_handler p s)
      | Dequeue p \<Rightarrow> Inr (s\<lparr>workq := remove1 p (workq s), running := running s @ [p]\<rparr>)
      | Work p \<Rightarrow> kpc_probe_work p (s\<lparr>running := remove1 p (running s)\<rparr>))"

text \<open>A run of events: \<open>None\<close> when an event cannot happen in the state it meets (or
  follows a fault), otherwise the final state or the fault that ended the run.\<close>

fun run :: "event list \<Rightarrow> kprobe_coverage \<Rightarrow> (fault + kprobe_coverage) option" where
  "run [] s = Some (Inr s)"
| "run (ev # evs) s =
     (if \<not> enabled ev s then None
      else case step ev s of
             Inl f \<Rightarrow> if evs = [] then Some (Inl f) else None
           | Inr s' \<Rightarrow> run evs s')"

text \<open>A state with one deferred, two pending and one hit entry.\<close>

definition demo :: kprobe_coverage where
  "demo = \<lparr>deferred_list = [1], pending_list = [3, 2], hit_list = [4],
            mem = [1 \<mapsto> Live \<lparr>kp_addr = 0x10, module_checksum = 5, base_addr = 0\<rparr>,
                   2 \<mapsto> Live \<lparr>kp_addr = 0x20, module_checksum = 0, base_addr = 0\<rparr>,
                   3 \<mapsto> Live \<lparr>kp_addr = 0x30, module_checksum = 0, base_addr = 0\<rparr>,
                   4 \<mapsto> Live \<lparr>kp_addr = 0x40, module_checksum = 0, base_addr = 0\<rparr>],
            nalloc = 4, registered = {2, 3}, workq = [], running = [],
            trace = [RegisterKprobe 2 0, EnableKprobe 2 0, RegisterKprobe 3 0, EnableKprobe 3 0,
                     RegisterKprobe 4 0, EnableKprobe 4 0, ScheduleWork 4, UnregisterKprobe 4,
                     WakeUp]\<rparr>"



section \<open>Entries and lists\<close>

lemmas prim_defs =
  bnd_def deref_def store_def vfree_def entries_def list_add_def list_add_tail_def list_del_def
  on_list_def
  register_kprobe_def enable_kprobe_def unregister_kprobe_def schedule_work_def wake_up_def
  vzalloc_def get_name_checksum_def kpc_free_entry_def kpc_defer_probe_def EINVAL_def

lemma bnd_simps [simp]: "bnd (Inl f) g = Inl f" "bnd (Inr x) g = g x"
  by (simp_all add: bnd_def)

lemma deref_live: "live s p \<Longrightarrow> \<exists>x. deref s p = Inr x"
  by (auto simp: live_def deref_def split: option.splits cell.splits)

lemma touch_live: "\<forall>q\<in>set qs. live s q \<Longrightarrow> touch s qs = Inr ()"
proof (induction qs)
  case Nil
  then show ?case by simp
next
  case (Cons q qs)
  then show ?case using deref_live [of s q] by auto
qed

lemma neighbours_subset: "set (neighbours p l) \<subseteq> set l"
  by (induction p l rule: neighbours.induct) (auto dest: in_set_takeD)


text \<open>On lists of live entries the list primitives do what they are meant to.\<close>

lemma list_del_live:
  assumes "on_list s p"
    and "\<forall>q\<in>set (deferred_list s @ pending_list s @ hit_list s). live s q"
  shows "list_del p s = Inr (s\<lparr>deferred_list := remove1 p (deferred_list s),
                               pending_list := remove1 p (pending_list s),
                               hit_list := remove1 p (hit_list s)\<rparr>)"
proof -
  have "live s p" using assms by (auto simp: on_list_def)
  then obtain x where x: "deref s p = Inr x" using deref_live by blast
  have "touch s (neighbours p (deferred_list s) @ neighbours p (pending_list s)
                 @ neighbours p (hit_list s)) = Inr ()"
    using assms(2) neighbours_subset [of p] by (intro touch_live) auto
  with x assms(1) show ?thesis by (simp add: list_del_def)
qed



lemma length_hex_field [simp]: "length (hex_field w n) = w"
  by (induction w n rule: hex_field.induct) auto

lemma length_show_line [simp]: "length (show_line c a) = 30"
  by (simp add: show_line_def)

lemmas run_defs =
  step_def enabled_def kpc_control_write_def c_string_def kpc_control_loop.simps(2) is_sep_def
  split_colon_def simple_strtoul_def radix_prefix_def hex_val_def
  kpc_add_probe_def kpc_new_entry_def kpc_enable_probe_def kpc_init_def env0_def
  kpc_pre_handler_def kpc_probe_work_def kpc_show_read_def kpc_unlink_next_def
  kpc_module_notifier_def kpc_handle_coming_module_def kpc_handle_going_module_def
  prim_defs Let_def

lemma demo_reached:
  "run [Write env0 (''mymod:10'' @ [CHR 0x0A] @ ''20'' @ [CHR 0x0A] @ ''30'' @ [CHR 0x0A]
                    @ ''40'' @ [CHR 0x0A]), Fire 4, Dequeue 4, Work 4] kpc_init = Some (Inr demo)"
  by (simp add: run_defs demo_def) (simp add: eval_nat_numeral insert_commute)

section \<open>The control parser\<close>

declare kpc_control_loop.simps(2) [simp del]

lemma strsep_line:
  "\<forall>c\<in>set line. \<not> is_sep c \<Longrightarrow> is_sep d \<Longrightarrow> strsep (line @ d # r) = (line, Some r)"
  by (induction line) auto

lemma loop_empty_line: "is_sep d \<Longrightarrow> kpc_control_loop e (Some (d # r)) out s = Inr (out, s)"
  by (simp add: kpc_control_loop.simps(2))

text \<open>One round of the loop on a non-empty, terminated line.\<close>

lemma loop_line:
  "\<forall>c\<in>set line. \<not> is_sep c \<Longrightarrow> is_sep d \<Longrightarrow> line \<noteq> [] \<Longrightarrow>
   kpc_control_loop e (Some (line @ d # r)) out s =
     (let out' = out + (int (length line) + 1) in
      if line = ''clear'' then
        (case kpc_clear s of Inl f \<Rightarrow> Inl f | Inr s1 \<Rightarrow> Inr (out', s1))
      else
        (case split_colon line of (module, addr_p) \<Rightarrow>
          (case simple_strtoul addr_p of (addr, endp) \<Rightarrow>
            if endp = 0 \<or> endp \<noteq> length addr_p then kpc_control_loop e (Some r) out' s
            else
              (case kpc_add_probe e module addr s of
                 Inl f \<Rightarrow> Inl f
               | Inr s1 \<Rightarrow> kpc_control_loop e (Some r) out' s1))))"
  by (simp add: kpc_control_loop.simps(2) strsep_line)

lemma split_first_sep:
  "\<exists>line. (\<forall>c\<in>set line. \<not> is_sep c) \<and> (pre = line \<or> (\<exists>d b. is_sep d \<and> pre = line @ d # b))"
proof (induction pre)
  case Nil
  then show ?case by simp
next
  case (Cons c pre)
  show ?case
  proof (cases "is_sep c")
    case True
    then show ?thesis by (intro exI [of _ "[]"]) auto
  next
    case False
    from Cons obtain line where
      "\<forall>c\<in>set line. \<not> is_sep c" "pre = line \<or> (\<exists>d b. is_sep d \<and> pre = line @ d # b)"
      by blast
    with False show ?thesis by (intro exI [of _ "c # line"]) auto
  qed
qed

lemma loop_stops_at_empty_line:
  assumes "is_sep d1" "is_sep d2"
  shows "kpc_control_loop e (Some (pre @ d1 # d2 # r)) out s =
         kpc_control_loop e (Some (pre @ [d1, d2])) out s"
proof (induction pre arbitrary: out s rule: length_induct)
  case (1 pre)
  obtain line where l: "\<forall>c\<in>set line. \<not> is_sep c"
      "pre = line \<or> (\<exists>d b. is_sep d \<and> pre = line @ d # b)"
    using split_first_sep by blast
  show ?case
  proof (cases "line = []")
    case True
    with l assms show ?thesis by (auto simp: loop_empty_line)
  next
    case False
    from l(2) show ?thesis
    proof
      assume "pre = line"
      with l(1) False assms show ?thesis
        by (simp add: loop_line loop_empty_line cong: if_cong sum.case_cong prod.case_cong)
    next
      assume "\<exists>d b. is_sep d \<and> pre = line @ d # b"
      then obtain d b where d: "is_sep d" "pre = line @ d # b" by blast
      then have "length b < length pre" by simp
      with 1 have IH: "\<And>out s. kpc_control_loop e (Some (b @ d1 # d2 # r)) out s =
          kpc_control_loop e (Some (b @ [d1, d2])) out s"
        by blast
      from l(1) False d show ?thesis
        by (simp add: loop_line IH cong: if_cong sum.case_cong prod.case_cong)
    qed
  qed
qed

lemma c_string_line:
  "CHR 0x00 \<notin> set line \<Longrightarrow> is_sep d \<Longrightarrow> c_string (line @ d # rest) = line @ d # c_string rest"
  by (induction line) (auto simp: c_string_def is_sep_def)

lemma c_string_two_seps:
  assumes "is_sep d1" "is_sep d2"
  shows "\<exists>pre' r. c_string (pre @ d1 # d2 # rest) = pre' @ d1 # d2 # r \<and>
                  c_string (pre @ [d1, d2]) = pre' @ [d1, d2]
       \<or> c_string (pre @ d1 # d2 # rest) = c_string (pre @ [d1, d2])"
proof (cases "CHR 0x00 \<in> set pre")
  case True
  then show ?thesis by (simp add: c_string_def takeWhile_append1)
next
  case False
  with assms have "c_string (pre @ d1 # d2 # rest) = pre @ d1 # d2 # c_string rest"
    "c_string (pre @ [d1, d2]) = pre @ [d1, d2]"
    using c_string_line [of pre d1 "d2 # rest"] c_string_line [of "[]" d2 rest]
      c_string_line [of pre d1 "[d2]"] c_string_line [of "[]" d2 "[]"]
    by (simp_all add: c_string_def)
  then show ?thesis by blast
qed

text \<open>The byte count is only accumulated: starting the loop \<open>k\<close> bytes later shifts the
  result by \<open>k\<close>.\<close>

lemma loop_out_shift:
  "kpc_control_loop e p (out + k) s =
     (case kpc_control_loop e p out s of Inl f \<Rightarrow> Inl f | Inr (out', s') \<Rightarrow> Inr (out' + k, s'))"
proof (induction e p out s rule: kpc_control_loop.induct)
  case (1 e out s)
  then show ?case by simp
next
  case (2 e buf out s)
  obtain line p where sp: "(line, p) = strsep buf" by (metis surj_pair)
  obtain module addr_p where sc: "(module, addr_p) = split_colon line" by (metis surj_pair)
  obtain addr endp where st: "(addr, endp) = simple_strtoul addr_p" by (metis surj_pair)
  let ?o = "out + (int (length line) + 1)"
  have eq: "out + k + (int (length line) + 1) = ?o + k" by simp
  show ?case
  proof (cases "line = [] \<or> p = None")
    case True
    with sp [symmetric] show ?thesis by (simp add: kpc_control_loop.simps(2))
  next
    case go0: False
    then obtain p' where p': "p = Some p'" and ne: "line \<noteq> []" by auto
    note go = go0 ne p'
    show ?thesis
    proof (cases "line = ''clear''")
      case True
      with sp [symmetric] go show ?thesis
        by (simp add: kpc_control_loop.simps(2) split: sum.splits)
    next
      case nc: False
      show ?thesis
      proof (cases "endp = 0 \<or> endp \<noteq> length addr_p")
        case True
        from 2(1) [OF sp go0 refl nc sc st True]
        have "kpc_control_loop e p (?o + k) s =
          (case kpc_control_loop e p ?o s of Inl f \<Rightarrow> Inl f
           | Inr (out', s') \<Rightarrow> Inr (out' + k, s'))" .
        with sp [symmetric] sc [symmetric] st [symmetric] go nc True show ?thesis
          by (auto simp add: kpc_control_loop.simps(2) [of e buf] eq Let_def)
      next
        case False
        show ?thesis
        proof (cases "kpc_add_probe e module addr s")
          case (Inl f)
          with sp [symmetric] sc [symmetric] st [symmetric] go nc False show ?thesis
            by (auto simp add: kpc_control_loop.simps(2) [of e buf] Let_def)
        next
          case (Inr b)
          from 2(2) [OF sp go0 refl nc sc st False Inr]
          have "kpc_control_loop e p (?o + k) b =
            (case kpc_control_loop e p ?o b of Inl f \<Rightarrow> Inl f
             | Inr (out', s') \<Rightarrow> Inr (out' + k, s'))" .
          with sp [symmetric] sc [symmetric] st [symmetric] go nc False Inr show ?thesis
            by (auto simp add: kpc_control_loop.simps(2) [of e buf] eq Let_def)
        qed
      qed
    qed
  qed
qed

lemma parse_hex_count:
  "snd (parse_hex cs r k) = k + length (takeWhile (\<lambda>c. hex_val c \<noteq> None) cs)"
  by (induction cs arbitrary: r k) (auto split: option.splits)

lemma takeWhile_stops_short:
  "x \<in> set xs \<Longrightarrow> \<not> P x \<Longrightarrow> length (takeWhile P xs) < length xs"
  by (induction xs) auto

text \<open>An address with no digits, or with a character that is not a hexadecimal digit
  after the optional radix prefix, fails the check \<open>endp == addr_p || *endp != '\0'\<close>.\<close>

lemma simple_strtoul_malformed:
  assumes "addr_p = [] \<or> (\<exists>c\<in>set (drop (radix_prefix addr_p) addr_p). hex_val c = None)"
  shows "snd (simple_strtoul addr_p) = 0 \<or> snd (simple_strtoul addr_p) \<noteq> length addr_p"
proof (cases "addr_p = []")
  case True
  then show ?thesis by (simp add: simple_strtoul_def radix_prefix_def)
next
  case False
  with assms obtain c where c: "c \<in> set (drop (radix_prefix addr_p) addr_p)" "hex_val c = None"
    by blast
  let ?r = "drop (radix_prefix addr_p) addr_p"
  have "length (takeWhile (\<lambda>c. hex_val c \<noteq> None) ?r) < length ?r"
    using c by (intro takeWhile_stops_short [of c]) auto
  moreover have "radix_prefix addr_p \<le> length addr_p"
    by (auto simp: radix_prefix_def split: list.splits)
  ultimately have "snd (simple_strtoul addr_p) < length addr_p"
    unfolding simple_strtoul_def parse_hex_count by simp
  then show ?thesis by simp
qed

lemma control_write_skips_line:
  assumes "\<not> buf_oom e" "\<not> user_fault e"
    and "line \<noteq> []" "\<forall>c\<in>set line. \<not> is_sep c \<and> c \<noteq> CHR 0x00" "is_sep d" "line \<noteq> ''clear''"
    and "snd (simple_strtoul (snd (split_colon line))) = 0
         \<or> snd (simple_strtoul (snd (split_colon line))) \<noteq> length (snd (split_colon line))"
  shows "kpc_control_write e (line @ d # rest) off s =
     (case kpc_control_write e rest off s of
        Inl f \<Rightarrow> Inl f
      | Inr (out, off', s') \<Rightarrow>
          Inr (out + (int (length line) + 1), off' + (int (length line) + 1), s'))"
proof -
  have c: "c_string (line @ d # rest) = line @ d # c_string rest"
    using assms by (intro c_string_line) auto
  obtain module addr_p where sc: "split_colon line = (module, addr_p)" by force
  obtain addr endp where st: "simple_strtoul addr_p = (addr, endp)" by force
  from assms(7) sc st have bad: "endp = 0 \<or> endp \<noteq> length addr_p" by simp
  have "kpc_control_loop e (Some (line @ d # c_string rest)) 0 s =
        kpc_control_loop e (Some (c_string rest)) (0 + (int (length line) + 1)) s"
    using assms(3-6) sc st bad
    by (auto simp add: kpc_control_loop.simps(2) [of e "line @ d # c_string rest"] strsep_line
          Let_def)
  also have "\<dots> = (case kpc_control_loop e (Some (c_string rest)) 0 s of Inl f \<Rightarrow> Inl f
                     | Inr (out', s') \<Rightarrow> Inr (out' + (int (length line) + 1), s'))"
    by (rule loop_out_shift)
  finally show ?thesis
    using assms(1,2) by (simp add: kpc_control_write_def c bnd_def split: sum.splits)
qed

lemma control_write_blob:
  assumes "\<not> buf_oom e" "\<not> user_fault e"
  shows "kpc_control_write e (''notanumber'' @ [CHR 0x0A] @ ''mymod:0x10'' @ [CHR 0x0A]) off s =
     (case kpc_add_probe e (Some ''mymod'') 0x10 s of
        Inl f \<Rightarrow> Inl f
      | Inr s' \<Rightarrow> Inr (22, off + 22, s'))"
  using assms
  by (simp add: kpc_control_write_def c_string_def kpc_control_loop.simps(2) is_sep_def
        split_colon_def simple_strtoul_def radix_prefix_def hex_val_def bnd_def split: sum.splits)

text \<open>
  C9, as the code has it. A non-empty, terminated line of a control write that holds no
  NUL byte and whose address is empty, or has a character that is not a hexadecimal digit
  after the optional radix prefix \<open>0x\<close> or \<open>0X\<close>, is skipped: the write behaves as the
  write of the remaining lines does, with the skipped line's bytes added to the count,
  and no state changes on its account. In particular the write of the two lines
  \<open>notanumber\<close> and \<open>mymod:0x10\<close> does exactly what adding a probe for module \<open>mymod\<close> at
  offset 0x10 does, and accounts for all 22 bytes.
\<close>

theorem control_write_skips_malformed_line:
  assumes "\<not> buf_oom e" and "\<not> user_fault e"
    and "line \<noteq> []" and "\<forall>c\<in>set line. \<not> is_sep c \<and> c \<noteq> CHR 0x00"
    and "is_sep d" and "line \<noteq> ''clear''"
    and "split_colon line = (module, addr_p)"
    and "addr_p = [] \<or> (\<exists>c\<in>set (drop (radix_prefix addr_p) addr_p). hex_val c = None)"
  shows "kpc_control_write e (line @ d # rest) off s =
           (case kpc_control_write e rest off s of
              Inl f \<Rightarrow> Inl f
            | Inr (out, off', s') \<Rightarrow>
                Inr (out + (int (length line) + 1), off' + (int (length line) + 1), s'))
       \<and> kpc_control_write e (''notanumber'' @ [CHR 0x0A] @ ''mymod:0x10'' @ [CHR 0x0A]) off s =
           (case kpc_add_probe e (Some ''mymod'') 0x10 s of
              Inl f \<Rightarrow> Inl f
            | Inr s' \<Rightarrow> Inr (22, off + 22, s'))"
proof -
  from assms(7,8) have "snd (simple_strtoul (snd (split_colon line))) = 0
      \<or> snd (simple_strtoul (snd (split_colon line))) \<noteq> length (snd (split_colon line))"
    using simple_strtoul_malformed [of addr_p] by simp
  with assms show ?thesis
    using control_write_skips_line [of e line d rest off s] control_write_blob [of e off s]
    by blast
qed

theorem control_write_skips_malformed_line_witness:
  "split_colon ''notanumber'' = (None, ''notanumber'')
   \<and> hex_val (CHR ''n'') = None
   \<and> kpc_control_write env0 (''notanumber'' @ CHR 0x0A # ''mymod:0x10'' @ [CHR 0x0A]) 0 kpc_init =
       (case kpc_control_write env0 (''mymod:0x10'' @ [CHR 0x0A]) 0 kpc_init of
          Inl f \<Rightarrow> Inl f
        | Inr (out, off', s') \<Rightarrow> Inr (out + 11, off' + 11, s'))
   \<and> kpc_control_write env0 (''notanumber'' @ [CHR 0x0A] @ ''mymod:0x10'' @ [CHR 0x0A]) 0 kpc_init =
       (case kpc_add_probe env0 (Some ''mymod'') 0x10 kpc_init of
          Inl f \<Rightarrow> Inl f
        | Inr s' \<Rightarrow> Inr (22, 22, s'))
   \<and> (\<exists>s'. kpc_control_write env0 (''notanumber'' @ [CHR 0x0A] @ ''mymod:0x10'' @ [CHR 0x0A]) 0
               kpc_init = Inr (22, 22, s')
          \<and> deferred_list s' = [1] \<and> pending_list s' = [] \<and> nalloc s' = 1
          \<and> mem s' 1 = Some (Live \<lparr>kp_addr = 0x10, module_checksum = 5, base_addr = 0\<rparr>))"
proof -
  have sc: "split_colon ''notanumber'' = (None, ''notanumber'')"
    by (simp add: split_colon_def)
  have hv: "hex_val (CHR ''n'') = None"
    by (simp add: hex_val_def)
  have bad: "''notanumber'' = [] \<or>
      (\<exists>c\<in>set (drop (radix_prefix ''notanumber'') ''notanumber''). hex_val c = None)"
    using hv by (simp add: radix_prefix_def)
  have seps: "\<forall>c\<in>set ''notanumber''. \<not> is_sep c \<and> c \<noteq> CHR 0x00"
    by (simp add: is_sep_def)
  have e: "\<not> buf_oom env0" "\<not> user_fault env0"
    by (simp_all add: env0_def)
  have th: "is_sep (CHR 0x0A) \<Longrightarrow> ''notanumber'' \<noteq> [] \<Longrightarrow> ''notanumber'' \<noteq> ''clear'' \<Longrightarrow>
      kpc_control_write env0 (''notanumber'' @ CHR 0x0A # ''mymod:0x10'' @ [CHR 0x0A]) 0 kpc_init =
        (case kpc_control_write env0 (''mymod:0x10'' @ [CHR 0x0A]) 0 kpc_init of
           Inl f \<Rightarrow> Inl f
         | Inr (out, off', s') \<Rightarrow>
             Inr (out + (int (length ''notanumber'') + 1),
                  off' + (int (length ''notanumber'') + 1), s'))
      \<and> kpc_control_write env0 (''notanumber'' @ [CHR 0x0A] @ ''mymod:0x10'' @ [CHR 0x0A]) 0 kpc_init =
        (case kpc_add_probe env0 (Some ''mymod'') 0x10 kpc_init of
           Inl f \<Rightarrow> Inl f
         | Inr s' \<Rightarrow> Inr (22, 0 + 22, s'))"
    using control_write_skips_malformed_line [of env0 "''notanumber''" "CHR 0x0A" None
      "''notanumber''" "''mymod:0x10'' @ [CHR 0x0A]" 0 kpc_init, OF e _ seps _ _ sc bad]
    by blast
  have pre: "is_sep (CHR 0x0A)" "''notanumber'' \<noteq> []" "''notanumber'' \<noteq> ''clear''"
    by (simp_all add: is_sep_def)
  have c1: "kpc_control_write env0 (''notanumber'' @ CHR 0x0A # ''mymod:0x10'' @ [CHR 0x0A]) 0 kpc_init =
       (case kpc_control_write env0 (''mymod:0x10'' @ [CHR 0x0A]) 0 kpc_init of
          Inl f \<Rightarrow> Inl f
        | Inr (out, off', s') \<Rightarrow> Inr (out + 11, off' + 11, s'))"
    using th [OF pre, THEN conjunct1] by (simp cong: sum.case_cong prod.case_cong)
  have c2: "kpc_control_write env0 (''notanumber'' @ [CHR 0x0A] @ ''mymod:0x10'' @ [CHR 0x0A]) 0 kpc_init =
       (case kpc_add_probe env0 (Some ''mymod'') 0x10 kpc_init of
          Inl f \<Rightarrow> Inl f
        | Inr s' \<Rightarrow> Inr (22, 22, s'))"
    using th [OF pre, THEN conjunct2] by (simp cong: sum.case_cong)
  have "\<exists>s'. kpc_add_probe env0 (Some ''mymod'') 0x10 kpc_init = Inr s'
          \<and> deferred_list s' = [1] \<and> pending_list s' = [] \<and> nalloc s' = 1
          \<and> mem s' 1 = Some (Live \<lparr>kp_addr = 0x10, module_checksum = 5, base_addr = 0\<rparr>)"
    by (simp add: run_defs)
  with c2 have c3: "\<exists>s'. kpc_control_write env0
        (''notanumber'' @ [CHR 0x0A] @ ''mymod:0x10'' @ [CHR 0x0A]) 0 kpc_init = Inr (22, 22, s')
          \<and> deferred_list s' = [1] \<and> pending_list s' = [] \<and> nalloc s' = 1
          \<and> mem s' 1 = Some (Live \<lparr>kp_addr = 0x10, module_checksum = 5, base_addr = 0\<rparr>)"
    by auto
  from sc hv c1 c2 c3 show ?thesis by blast
qed

text \<open>
  C9 does not hold for every line without a usable address. \<open>simple_strtoul\<close> steps
  over a radix prefix before it looks for digits, so for the address \<open>0x\<close> it returns 0
  with \<open>endp\<close> at the end of the string, the check \<open>endp == addr_p || *endp != '\0'\<close> passes, and the
  line adds a kernel probe at address 0. A NUL byte ends the buffer that \<open>strsep\<close> walks:
  a line that holds one is the last, unterminated token, and neither it nor any line
  after it is processed. And an empty line is not skipped either: the loop ends there.
\<close>

theorem control_write_accepts_bare_radix_prefix:
  "kpc_control_write env0 (''0x'' @ [CHR 0x0A]) 0 kpc_init =
     Inr (3, 3, \<lparr>deferred_list = [], pending_list = [1], hit_list = [],
                  mem = [1 \<mapsto> Live \<lparr>kp_addr = 0, module_checksum = 0, base_addr = 0\<rparr>],
                  nalloc = 1, registered = {1}, workq = [], running = [],
                  trace = [RegisterKprobe 1 0, EnableKprobe 1 0]\<rparr>)
   \<and> kpc_control_write env0 (''zz'' @ [CHR 0x00, CHR 0x0A] @ ''10'' @ [CHR 0x0A]) 0 kpc_init =
     Inr (0, 0, kpc_init)
   \<and> kpc_control_write env0 ([CHR 0x0A] @ ''10'' @ [CHR 0x0A]) 0 kpc_init =
     Inr (0, 0, kpc_init)"
  by (simp add: run_defs)

text \<open>
  C10. A control write stops at an empty line: whatever follows two consecutive line
  separators (also the CR and LF of one CRLF line ending), or follows a separator that
  starts the blob, has no effect on the resulting state or on the returned byte count.
\<close>

theorem control_write_stops_at_empty_line:
  assumes "is_sep d1" and "is_sep d2"
  shows "kpc_control_write e (pre @ d1 # d2 # rest) off s = kpc_control_write e (pre @ [d1, d2]) off s
       \<and> kpc_control_write e (d1 # rest) off s = kpc_control_write e [d1] off s"
proof -
  have a: "kpc_control_loop e (Some (c_string (pre @ d1 # d2 # rest))) 0 s =
           kpc_control_loop e (Some (c_string (pre @ [d1, d2]))) 0 s"
    using c_string_two_seps [OF assms, of pre rest] loop_stops_at_empty_line [OF assms]
    by (metis append_Cons append_Nil)
  have "c_string (d1 # rest) = d1 # c_string rest" "c_string [d1] = [d1]"
    using assms(1) by (auto simp: c_string_def is_sep_def)
  then have b: "kpc_control_loop e (Some (c_string (d1 # rest))) 0 s =
                kpc_control_loop e (Some (c_string [d1])) 0 s"
    using assms(1) by (simp add: loop_empty_line)
  from a b show ?thesis by (simp add: kpc_control_write_def)
qed

theorem control_write_stops_at_empty_line_witness:
  "is_sep (CHR 0x0D) \<and> is_sep (CHR 0x0A)
   \<and> kpc_control_write env0 (''10'' @ CHR 0x0D # CHR 0x0A # ''20'' @ [CHR 0x0A]) 0 kpc_init =
       kpc_control_write env0 (''10'' @ [CHR 0x0D, CHR 0x0A]) 0 kpc_init
   \<and> (case kpc_control_write env0 (''10'' @ [CHR 0x0D, CHR 0x0A]) 0 kpc_init of
        Inl f \<Rightarrow> False
      | Inr (out, off, s) \<Rightarrow> out = 3 \<and> pending_list s = [1] \<and> nalloc s = 1)"
proof -
  have s: "is_sep (CHR 0x0D)" "is_sep (CHR 0x0A)"
    by (simp_all add: is_sep_def)
  have r: "(case kpc_control_write env0 (''10'' @ [CHR 0x0D, CHR 0x0A]) 0 kpc_init of
        Inl f \<Rightarrow> False
      | Inr (out, off, s) \<Rightarrow> out = 3 \<and> pending_list s = [1] \<and> nalloc s = 1)"
    by code_simp
  from control_write_stops_at_empty_line [OF s, of env0 "''10''" "''20'' @ [CHR 0x0A]" 0 kpc_init]
  show ?thesis using s r by simp
qed

section \<open>From deferred to hit\<close>

text \<open>
  C1. A probe added for a module that is not loaded is deferred, with the checksum of the
  module name and base address 0; when the module arrives the entry moves to the pending
  list with the absolute address (base plus offset) and its probe is registered; a read
  at this point finds no hit. When the probe fires, the handler queues the entry's work
  item; once a worker has taken the item and run it, the entry is on the hit list, and
  the read prints the checksum and the offset relative to the base, not the absolute
  address. Stated for any module name, offset and base address, starting from the state
  after \<open>kpc_init\<close>; entry 1 is the first block \<open>vzalloc\<close> hands out.
\<close>

theorem defer_resolve_roundtrip:
  assumes "find_module e n = None" and "\<not> oom e 0"
    and "0 \<le> register_rv e 1" and "0 \<le> enable_rv e 1" and "\<not> user_fault e"
  shows "\<exists>s1 s2 s3 s4.
      kpc_add_probe e (Some n) off kpc_init = Inr s1
    \<and> deferred_list s1 = [1] \<and> pending_list s1 = [] \<and> hit_list s1 = []
    \<and> mem s1 1 = Some (Live \<lparr>kp_addr = off, module_checksum = crc32 e n, base_addr = 0\<rparr>)
    \<and> kpc_module_notifier e MODULE_STATE_COMING \<lparr>mod_name = n, module_core = b\<rparr> s1 = Inr s2
    \<and> deferred_list s2 = [] \<and> pending_list s2 = [1] \<and> hit_list s2 = []
    \<and> mem s2 1 = Some (Live \<lparr>kp_addr = off + b, module_checksum = crc32 e n, base_addr = b\<rparr>)
    \<and> registered s2 = {1} \<and> workq s2 = [] \<and> running s2 = []
    \<and> trace s2 = [RegisterKprobe 1 (register_rv e 1), EnableKprobe 1 (enable_rv e 1)]
    \<and> kpc_show_read e s2 = Inr (if signal e then Returned (0, None) else Blocked, s2)
    \<and> run [Fire 1] s2 = Some (Inr (kpc_pre_handler 1 s2))
    \<and> workq (kpc_pre_handler 1 s2) = [1]
    \<and> run [Fire 1, Dequeue 1, Work 1] s2 = Some (Inr s3)
    \<and> deferred_list s3 = [] \<and> pending_list s3 = [] \<and> hit_list s3 = [1]
    \<and> registered s3 = {} \<and> workq s3 = [] \<and> running s3 = []
    \<and> trace s3 = trace s2 @ [ScheduleWork 1, UnregisterKprobe 1, WakeUp]
    \<and> kpc_show_read e s3 = Inr (Returned (30, Some (show_line (crc32 e n) off)), s4)
    \<and> hit_list s4 = [] \<and> mem s4 1 = Some Freed"
  using assms
  by (simp add: kpc_add_probe_def kpc_new_entry_def kpc_init_def kpc_module_notifier_def
      kpc_handle_coming_module_def kpc_enable_probe_def kpc_pre_handler_def kpc_probe_work_def
      kpc_show_read_def kpc_unlink_next_def step_def enabled_def prim_defs Let_def)

theorem defer_resolve_roundtrip_witness:
  "\<exists>s1 s2 s3 s4.
      kpc_add_probe env0 (Some ''mymod'') 0x10 kpc_init = Inr s1
    \<and> deferred_list s1 = [1] \<and> pending_list s1 = [] \<and> hit_list s1 = []
    \<and> mem s1 1 = Some (Live \<lparr>kp_addr = 0x10, module_checksum = 5, base_addr = 0\<rparr>)
    \<and> kpc_module_notifier env0 MODULE_STATE_COMING mymod s1 = Inr s2
    \<and> deferred_list s2 = [] \<and> pending_list s2 = [1] \<and> hit_list s2 = []
    \<and> mem s2 1 = Some (Live \<lparr>kp_addr = 0x1010, module_checksum = 5, base_addr = 0x1000\<rparr>)
    \<and> registered s2 = {1} \<and> workq s2 = [] \<and> running s2 = []
    \<and> trace s2 = [RegisterKprobe 1 0, EnableKprobe 1 0]
    \<and> kpc_show_read env0 s2 = Inr (Blocked, s2)
    \<and> run [Fire 1] s2 = Some (Inr (kpc_pre_handler 1 s2))
    \<and> workq (kpc_pre_handler 1 s2) = [1]
    \<and> run [Fire 1, Dequeue 1, Work 1] s2 = Some (Inr s3)
    \<and> deferred_list s3 = [] \<and> pending_list s3 = [] \<and> hit_list s3 = [1]
    \<and> registered s3 = {} \<and> workq s3 = [] \<and> running s3 = []
    \<and> trace s3 = trace s2 @ [ScheduleWork 1, UnregisterKprobe 1, WakeUp]
    \<and> kpc_show_read env0 s3 =
        Inr (Returned (30, Some (''0x00000005:0x0000000000000010'' @ [CHR 0x0A])), s4)
    \<and> hit_list s4 = [] \<and> mem s4 1 = Some Freed"
proof -
  have h: "find_module env0 ''mymod'' = None" "\<not> oom env0 0" "0 \<le> register_rv env0 1"
    "0 \<le> enable_rv env0 1" "\<not> user_fault env0"
    by (simp_all add: env0_def)
  have c: "crc32 env0 ''mymod'' = 5" "signal env0 = False" "register_rv env0 1 = 0"
    "enable_rv env0 1 = 0"
    by (simp_all add: env0_def)
  have sl: "show_line 5 0x10 = ''0x00000005:0x0000000000000010'' @ [CHR 0x0A]"
    by code_simp
  from defer_resolve_roundtrip [OF h, of "0x10" "0x1000"] show ?thesis
    unfolding c sl mymod_def by simp
qed

text \<open>The same round trip as one run, from the control write to the read.\<close>

lemma defer_resolve_run:
  "\<exists>s. run [Write env0 (''mymod:0x10'' @ [CHR 0x0A]), Notify env0 MODULE_STATE_COMING mymod,
            Fire 1, Dequeue 1, Work 1, Read env0] kpc_init = Some (Inr s)
     \<and> deferred_list s = [] \<and> pending_list s = [] \<and> hit_list s = []
     \<and> mem s 1 = Some Freed \<and> registered s = {} \<and> workq s = [] \<and> running s = []
     \<and> trace s = [RegisterKprobe 1 0, EnableKprobe 1 0, ScheduleWork 1, UnregisterKprobe 1,
                   WakeUp]"
  by (simp add: mymod_def run_defs)

section \<open>Clearing\<close>

text \<open>On lists that are free of duplicates and hold live entries, \<open>kpc_clear\<close> empties
  the three lists and frees their entries; it unregisters the entries of the hit list
  and then those of the pending list, in list order, and leaves the workqueue as it
  is.\<close>

lemma remove1_filter: "distinct xs \<Longrightarrow> remove1 p xs = filter (\<lambda>q. q \<noteq> p) xs"
  by (auto simp: distinct_remove1_removeAll removeAll_filter_not_eq intro: filter_cong)

lemma clear_list_Cons:
  "kpc_clear_list (p # l) b s =
     bnd (bnd (list_del p (if b then unregister_kprobe p s else s)) (kpc_free_entry p))
       (kpc_clear_list l b)"
  by (simp add: bnd_def split: sum.splits)

lemma clear_list_step:
  assumes "on_list s p"
    and "\<forall>q\<in>set (deferred_list s @ pending_list s @ hit_list s). live s q"
    and "distinct (deferred_list s)" "distinct (pending_list s)" "distinct (hit_list s)"
  shows "\<exists>s'. bnd (list_del p (if b then unregister_kprobe p s else s)) (kpc_free_entry p) = Inr s'
    \<and> deferred_list s' = filter (\<lambda>q. q \<noteq> p) (deferred_list s)
    \<and> pending_list s' = filter (\<lambda>q. q \<noteq> p) (pending_list s)
    \<and> hit_list s' = filter (\<lambda>q. q \<noteq> p) (hit_list s)
    \<and> mem s' = (mem s)(p \<mapsto> Freed)
    \<and> registered s' = (if b then registered s - {p} else registered s)
    \<and> trace s' = trace s @ (if b then [UnregisterKprobe p] else [])
    \<and> nalloc s' = nalloc s \<and> workq s' = workq s \<and> running s' = running s"
proof -
  let ?u = "if b then unregister_kprobe p s else s"
  have u: "on_list ?u p"
    "\<forall>q\<in>set (deferred_list ?u @ pending_list ?u @ hit_list ?u). live ?u q"
    using assms(1,2) by (simp_all add: live_def on_list_def unregister_kprobe_def)
  have "live s p" using assms(1,2) by (auto simp: on_list_def)
  then show ?thesis
    using assms(3-) by (auto simp: list_del_live [OF u] kpc_free_entry_def vfree_def live_def
        unregister_kprobe_def remove1_filter split: option.splits cell.splits)
qed

lemma clear_list_ok:
  assumes "distinct l" "\<forall>p\<in>set l. on_list s p"
    and "\<forall>q\<in>set (deferred_list s @ pending_list s @ hit_list s). live s q"
    and "distinct (deferred_list s)" "distinct (pending_list s)" "distinct (hit_list s)"
  shows "\<exists>s'. kpc_clear_list l b s = Inr s'
    \<and> deferred_list s' = filter (\<lambda>q. q \<notin> set l) (deferred_list s)
    \<and> pending_list s' = filter (\<lambda>q. q \<notin> set l) (pending_list s)
    \<and> hit_list s' = filter (\<lambda>q. q \<notin> set l) (hit_list s)
    \<and> (\<forall>q. mem s' q = (if q \<in> set l then Some Freed else mem s q))
    \<and> registered s' = (if b then registered s - set l else registered s)
    \<and> trace s' = trace s @ (if b then map UnregisterKprobe l else [])
    \<and> nalloc s' = nalloc s \<and> workq s' = workq s \<and> running s' = running s"
  using assms
proof (induction l arbitrary: s)
  case Nil
  then show ?case by simp
next
  case (Cons p l)
  from Cons.prems have "on_list s p" by simp
  from clear_list_step [OF this Cons.prems(3-6), of b] obtain s1 where
    s1: "bnd (list_del p (if b then unregister_kprobe p s else s)) (kpc_free_entry p) = Inr s1"
      "deferred_list s1 = filter (\<lambda>q. q \<noteq> p) (deferred_list s)"
      "pending_list s1 = filter (\<lambda>q. q \<noteq> p) (pending_list s)"
      "hit_list s1 = filter (\<lambda>q. q \<noteq> p) (hit_list s)"
      "mem s1 = (mem s)(p \<mapsto> Freed)"
      "registered s1 = (if b then registered s - {p} else registered s)"
      "trace s1 = trace s @ (if b then [UnregisterKprobe p] else [])"
      "nalloc s1 = nalloc s" "workq s1 = workq s" "running s1 = running s"
    by blast
  have pre: "distinct l" "\<forall>q\<in>set l. on_list s1 q"
    "\<forall>q\<in>set (deferred_list s1 @ pending_list s1 @ hit_list s1). live s1 q"
    "distinct (deferred_list s1)" "distinct (pending_list s1)" "distinct (hit_list s1)"
    using Cons.prems s1 by (auto simp: live_def on_list_def)
  from Cons.IH [OF pre] obtain s' where
    s': "kpc_clear_list l b s1 = Inr s'"
      "deferred_list s' = filter (\<lambda>q. q \<notin> set l) (deferred_list s1)"
      "pending_list s' = filter (\<lambda>q. q \<notin> set l) (pending_list s1)"
      "hit_list s' = filter (\<lambda>q. q \<notin> set l) (hit_list s1)"
      "\<forall>q. mem s' q = (if q \<in> set l then Some Freed else mem s1 q)"
      "registered s' = (if b then registered s1 - set l else registered s1)"
      "trace s' = trace s1 @ (if b then map UnregisterKprobe l else [])"
      "nalloc s' = nalloc s1" "workq s' = workq s1" "running s' = running s1"
    by blast
  have run: "kpc_clear_list (p # l) b s = Inr s'"
    unfolding clear_list_Cons s1(1) using s'(1) by simp
  have f: "\<And>xs. filter (\<lambda>q. q \<notin> set l) (filter (\<lambda>q. q \<noteq> p) xs) = filter (\<lambda>q. q \<notin> set (p # l)) xs"
    by (auto intro: filter_cong)
  show ?case
    apply (rule exI [of _ s'])
    using run s1(2-) s'(2-) by (auto simp: f)
qed

lemma kpc_clear_ok:
  assumes "distinct (deferred_list s @ hit_list s @ pending_list s)"
    and "\<forall>p\<in>set (deferred_list s @ hit_list s @ pending_list s). live s p"
  shows "\<exists>s'. kpc_clear s = Inr s'
    \<and> deferred_list s' = [] \<and> pending_list s' = [] \<and> hit_list s' = []
    \<and> (\<forall>q. mem s' q = (if q \<in> set (deferred_list s @ hit_list s @ pending_list s)
                           then Some Freed else mem s q))
    \<and> trace s' = trace s @ map UnregisterKprobe (hit_list s @ pending_list s)
    \<and> registered s' = registered s - set (hit_list s @ pending_list s)
    \<and> nalloc s' = nalloc s \<and> workq s' = workq s \<and> running s' = running s"
proof -
  have d: "distinct (deferred_list s)" "distinct (pending_list s)" "distinct (hit_list s)"
    using assms(1) by auto
  have l: "\<forall>q\<in>set (deferred_list s @ pending_list s @ hit_list s). live s q"
    using assms(2) by auto
  have "\<forall>p\<in>set (deferred_list s). on_list s p"
    by (auto simp: on_list_def)
  from clear_list_ok [OF d(1) this l d, of False] obtain s1 where s1:
    "kpc_clear_list (deferred_list s) False s = Inr s1"
    "deferred_list s1 = filter (\<lambda>q. q \<notin> set (deferred_list s)) (deferred_list s)"
    "pending_list s1 = filter (\<lambda>q. q \<notin> set (deferred_list s)) (pending_list s)"
    "hit_list s1 = filter (\<lambda>q. q \<notin> set (deferred_list s)) (hit_list s)"
    "\<forall>q. mem s1 q = (if q \<in> set (deferred_list s) then Some Freed else mem s q)"
    "registered s1 = registered s" "trace s1 = trace s" "nalloc s1 = nalloc s" "workq s1 = workq s"
    "running s1 = running s"
    by auto
  have keep: "pending_list s1 = pending_list s" "hit_list s1 = hit_list s"
    using assms(1) s1(3,4) by (auto simp: filter_id_conv)
  let ?s2 = "s1\<lparr>deferred_list := []\<rparr>"
  have on2: "\<forall>p\<in>set (hit_list ?s2). on_list ?s2 p"
    by (auto simp: on_list_def)
  have l2: "\<forall>q\<in>set (deferred_list ?s2 @ pending_list ?s2 @ hit_list ?s2). live ?s2 q"
    using assms keep s1(5) by (auto simp: live_def)
  from clear_list_ok [OF _ on2 l2, of True] d keep obtain s3 where s3:
    "kpc_clear_list (hit_list ?s2) True ?s2 = Inr s3"
    "deferred_list s3 = []"
    "pending_list s3 = filter (\<lambda>q. q \<notin> set (hit_list s)) (pending_list s)"
    "hit_list s3 = filter (\<lambda>q. q \<notin> set (hit_list s)) (hit_list s)"
    "\<forall>q. mem s3 q = (if q \<in> set (hit_list s) then Some Freed else mem s1 q)"
    "registered s3 = registered s - set (hit_list s)"
    "trace s3 = trace s @ map UnregisterKprobe (hit_list s)"
    "nalloc s3 = nalloc s" "workq s3 = workq s" "running s3 = running s"
    using s1(6-) by auto
  have keep3: "pending_list s3 = pending_list s" "hit_list s3 = []"
    using assms(1) s3(3,4) by (auto simp: filter_id_conv)
  have on3: "\<forall>p\<in>set (pending_list s3). on_list s3 p"
    by (auto simp: on_list_def)
  have l3: "\<forall>q\<in>set (deferred_list s3 @ pending_list s3 @ hit_list s3). live s3 q"
    using assms keep3 s3(2,5) s1(5) by (auto simp: live_def)
  from clear_list_ok [OF _ on3 l3, of True] d keep3 s3(2) obtain s4 where s4:
    "kpc_clear_list (pending_list s3) True s3 = Inr s4"
    "deferred_list s4 = []"
    "\<forall>q. mem s4 q = (if q \<in> set (pending_list s) then Some Freed else mem s3 q)"
    "registered s4 = registered s3 - set (pending_list s)"
    "trace s4 = trace s3 @ map UnregisterKprobe (pending_list s)"
    "nalloc s4 = nalloc s" "workq s4 = workq s" "running s4 = running s"
    using s3(8-) by auto
  have run: "kpc_clear s = Inr (s4\<lparr>pending_list := [], hit_list := []\<rparr>)"
    using s1(1) s3(1) s4(1) by (simp add: kpc_clear_def Let_def)
  with s4 s3 s1 show ?thesis
    by (intro exI [of _ "s4\<lparr>pending_list := [], hit_list := []\<rparr>"]) auto
qed

section \<open>Hit order\<close>






section \<open>Failure paths that leave entries behind\<close>

text \<open>
  C4. Arming calls \<open>register_kprobe\<close> and then \<open>enable_kprobe\<close>, but the entry is linked
  into the pending list between the two calls and is not unlinked when \<open>enable_kprobe\<close>
  fails: after adding a kernel probe at 0x10 with a failing \<open>enable_kprobe\<close>, the entry has
  been unregistered and freed and is still on the pending list.
\<close>

theorem enable_failure_leaves_freed_entry_pending:
  "\<exists>s'. kpc_add_probe env_enable_fails None 0x10 kpc_init = Inr s'
     \<and> pending_list s' = [1] \<and> mem s' 1 = Some Freed
     \<and> trace s' = [RegisterKprobe 1 0, EnableKprobe 1 (- 1), UnregisterKprobe 1]"
  by (simp add: env_enable_fails_def run_defs)

text \<open>
  C5. When a module goes away, its pending entries are unregistered and unlinked, and
  its deferred entries stay where they are, but the unlinked entries are not freed: the
  entry of a probe in the loaded module \<open>mymod\<close> is, after \<open>mymod\<close> has gone, on no list, not
  registered, and still allocated.
\<close>

theorem going_module_leaks_pending_entry:
  "\<exists>s1 s2. kpc_add_probe env_loaded (Some ''mymod'') 0x10 kpc_init = Inr s1
     \<and> pending_list s1 = [1] \<and> 1 \<in> registered s1
     \<and> kpc_module_notifier env_loaded MODULE_STATE_GOING mymod s1 = Inr s2
     \<and> deferred_list s2 = [] \<and> pending_list s2 = [] \<and> hit_list s2 = []
     \<and> 1 \<notin> registered s2
     \<and> mem s2 1 = Some (Live \<lparr>kp_addr = 0x1010, module_checksum = 5, base_addr = 0x1000\<rparr>)"
  by (simp add: env_loaded_def mymod_def run_defs)

text \<open>
  C3. Two runs that end in a quiescent state violating the list invariant: after a
  probe in a loaded module was added and the module went away, entry 1 is live and on no
  list; after a kernel probe was added and \<open>enable_kprobe\<close> failed, entry 1 is freed and on
  the pending list.
\<close>

theorem quiescent_states_break_list_invariant:
  "(\<exists>s. run [Write env_loaded (''mymod:10'' @ [CHR 0x0A]),
             Notify env_loaded MODULE_STATE_GOING mymod] kpc_init = Some (Inr s)
        \<and> live s 1 \<and> 1 \<notin> set (deferred_list s) \<and> 1 \<notin> set (pending_list s)
        \<and> 1 \<notin> set (hit_list s))
   \<and> (\<exists>s. run [Write env_enable_fails (''10'' @ [CHR 0x0A])] kpc_init = Some (Inr s)
        \<and> mem s 1 = Some Freed \<and> 1 \<in> set (pending_list s))"
  by (simp add: env_loaded_def env_enable_fails_def mymod_def live_def run_defs)

text \<open>
  C6. A failed allocation of an entry is not reported to the writer: \<open>kpc_add_probe\<close>
  goes on with the NULL entry. For a module that is not loaded it links the NULL entry
  into the deferred list, which dereferences NULL; for a kernel address it calls
  \<open>register_kprobe\<close> on the NULL entry, and links it into the pending list when the
  registrar accepts it. When the registrar rejects it, the write carries on with the next
  line and returns the full byte count.
\<close>

theorem allocation_failure_not_handled:
  "kpc_add_probe env_oom (Some ''mymod'') 0x10 kpc_init = Inl NullDeref
   \<and> kpc_add_probe env_oom None 0x10 kpc_init = Inl NullDeref
   \<and> (\<exists>s'. kpc_control_write env_oom_reject (''10'' @ [CHR 0x0A] @ ''20'' @ [CHR 0x0A]) 0 kpc_init
              = Inr (6, 6, s')
          \<and> trace s' = [RegisterKprobe NULL (- 1), RegisterKprobe NULL (- 1)]
          \<and> nalloc s' = 2 \<and> pending_list s' = [] \<and> deferred_list s' = [])"
  by (simp add: env_oom_def env_oom_reject_def run_defs)

text \<open>The freed entry that a failed \<open>enable_kprobe\<close> leaves on the pending list is in
  the way of its neighbours: the next \<open>list_add\<close> to the pending list writes its \<open>prev\<close>
  field, and so does the \<open>list_del\<close> of the entry after it.\<close>

lemma freed_entry_on_pending_list_is_written:
  "run [Write env_enable_fails (''10'' @ [CHR 0x0A]), Write env0 (''20'' @ [CHR 0x0A])] kpc_init
     = Some (Inl BadAccess)
   \<and> run [Write env0 (''10'' @ [CHR 0x0A] @ ''20'' @ [CHR 0x0A]),
           Write env_enable_fails (''30'' @ [CHR 0x0A]), Fire 2, Dequeue 2, Work 2] kpc_init
     = Some (Inl BadAccess)"
  by (simp add: env_enable_fails_def run_defs)

section \<open>Work items that run late\<close>

text \<open>
  C2. The probe of an entry stays registered until its work function calls
  \<open>unregister_kprobe\<close>. While the work item is queued, further fires do not queue it
  again; but a work item that a worker has taken off the queue can be queued again. When
  the probe fires once more before the work function has unregistered it, the work
  function runs twice for the same entry: the second time it finds the entry on the hit
  list, not on the pending list, unlinks it there, appends it again and wakes the reader
  again. When a reader has taken and freed the entry in between, the second call works
  on freed memory.
\<close>

theorem second_fire_completes_entry_twice:
  "(\<exists>s. run [Write env0 (''10'' @ [CHR 0x0A]), Fire 1, Fire 1] kpc_init = Some (Inr s)
        \<and> workq s = [1] \<and> running s = [])
   \<and> (\<exists>s. run [Write env0 (''10'' @ [CHR 0x0A]), Fire 1, Dequeue 1, Fire 1, Work 1] kpc_init
            = Some (Inr s)
        \<and> pending_list s = [] \<and> hit_list s = [1] \<and> registered s = {} \<and> workq s = [1])
   \<and> (\<exists>s. run [Write env0 (''10'' @ [CHR 0x0A]), Fire 1, Dequeue 1, Fire 1, Work 1,
                 Dequeue 1, Work 1] kpc_init = Some (Inr s)
        \<and> pending_list s = [] \<and> hit_list s = [1]
        \<and> trace s = [RegisterKprobe 1 0, EnableKprobe 1 0, ScheduleWork 1, ScheduleWork 1,
                      UnregisterKprobe 1, WakeUp, UnregisterKprobe 1, WakeUp])
   \<and> run [Write env0 (''10'' @ [CHR 0x0A]), Fire 1, Dequeue 1, Fire 1, Work 1, Read env0,
           Dequeue 1, Work 1] kpc_init = Some (Inl BadAccess)"
  by (simp add: run_defs)

text \<open>
  C7. \<open>kpc_clear\<close> frees the entries on the three lists, but the work item of an entry
  whose probe has fired stays queued: after the clear the lists are empty, entry 1 is
  freed and its work item is still on the workqueue, and when the work function runs
  (here after a further probe was added and has fired) it works on the freed entry. And
  \<open>kpc_clear\<close> itself works on freed memory when the pending list holds the entry that a
  failed \<open>enable_kprobe\<close> has left there.
\<close>

theorem clear_leaves_work_item_queued:
  "(\<exists>s. run [Write env0 (''10'' @ [CHR 0x0A]), Fire 1, Write env0 (''clear'' @ [CHR 0x0A])]
            kpc_init = Some (Inr s)
        \<and> deferred_list s = [] \<and> pending_list s = [] \<and> hit_list s = []
        \<and> mem s 1 = Some Freed \<and> registered s = {} \<and> workq s = [1])
   \<and> run [Write env0 (''10'' @ [CHR 0x0A]), Fire 1, Write env0 (''clear'' @ [CHR 0x0A]),
           Write env0 (''20'' @ [CHR 0x0A]), Fire 2, Dequeue 1, Work 1] kpc_init
        = Some (Inl BadAccess)
   \<and> run [Write env_enable_fails (''10'' @ [CHR 0x0A]), Write env0 (''clear'' @ [CHR 0x0A])]
        kpc_init = Some (Inl BadAccess)"
  by (simp add: env_enable_fails_def kpc_clear_def run_defs)

end
